theory Spec2Isabelle
  imports Main "HOL-Library.Sublist"
begin

section \<open>Python values and their text\<close>

text \<open>
  \<open>add_item\<close> and \<open>remove_item\<close> accept any Python object for \<open>item\<close> and \<open>qty\<close>
  and test it with \<open>isinstance\<close>. A value is a \<open>str\<close>, an \<open>int\<close>, a \<open>bool\<close> (a subclass of
  \<open>int\<close> in Python) or an object of another type. The program does two things only
  with an object of another type: it tests \<open>isinstance\<close>, which fails, and it formats the
  object into a message, so such an object is represented by the text \<open>str()\<close> gives
  for it. A \<open>str\<close> is a list of code points up to U+00FF.
\<close>

datatype pyval = PStr string | PInt int | PBool bool | POther string

text \<open>\<open>isinstance(v, str)\<close>, with the string.\<close>

fun as_str :: "pyval \<Rightarrow> string option" where
  "as_str (PStr s) = Some s"
| "as_str (PInt n) = None"
| "as_str (PBool b) = None"
| "as_str (POther t) = None"

text \<open>\<open>isinstance(v, int)\<close>, with the number: \<open>True\<close> counts as 1 and \<open>False\<close> as 0.\<close>

fun as_int :: "pyval \<Rightarrow> int option" where
  "as_int (PStr s) = None"
| "as_int (PInt n) = Some n"
| "as_int (PBool b) = Some (if b then 1 else 0)"
| "as_int (POther t) = None"

text \<open>
  Decimal text of a number, as \<open>str\<close> of an \<open>int\<close> gives it. The bound that recent
  interpreters put on the number of digits of such a conversion (4300 unless configured
  otherwise) is not modelled: every integer has its text.
\<close>

definition digit_char :: "nat \<Rightarrow> char" where
  "digit_char d = ''0123456789'' ! (d mod 10)"

function show_nat :: "nat \<Rightarrow> string" where
  "show_nat n = (if n < 10 then [digit_char n] else show_nat (n div 10) @ [digit_char (n mod 10)])"
  by pat_completeness auto
termination
  by (relation "measure (\<lambda>n. n)") auto

declare show_nat.simps [simp del]

definition show_int :: "int \<Rightarrow> string" where
  "show_int i = (if i < 0 then CHR ''-'' # show_nat (nat (- i)) else show_nat (nat i))"

text \<open>What an f-string puts for \<open>{v}\<close>.\<close>

fun py_str :: "pyval \<Rightarrow> string" where
  "py_str (PStr s) = s"
| "py_str (PInt n) = show_int n"
| "py_str (PBool b) = (if b then ''True'' else ''False'')"
| "py_str (POther t) = t"

text \<open>
  \<open>repr\<close> of a \<open>str\<close>, which is what \<open>str()\<close> of a \<open>KeyError\<close> gives for its message.
  The quote is a double quote when the text has a single quote and no double quote,
  and a single quote otherwise; the quote and the backslash are escaped, tab, newline
  and carriage return are written \<open>\t\<close>, \<open>\n\<close>, \<open>\r\<close>, and a code point that is
  not printable is written \<open>\xhh\<close>.
\<close>

definition hex_char :: "nat \<Rightarrow> char" where
  "hex_char d = ''0123456789abcdef'' ! (d mod 16)"

definition printable :: "char \<Rightarrow> bool" where
  "printable c = (let n = (of_char c :: nat) in
     (32 \<le> n \<and> n < 127) \<or> (161 \<le> n \<and> n \<noteq> 173))"

definition repr_char :: "char \<Rightarrow> char \<Rightarrow> string" where
  "repr_char quote c =
     (if c = quote \<or> c = CHR 0x5C then [CHR 0x5C, c]
      else if c = CHR 0x09 then [CHR 0x5C, CHR ''t'']
      else if c = CHR 0x0A then [CHR 0x5C, CHR ''n'']
      else if c = CHR 0x0D then [CHR 0x5C, CHR ''r'']
      else if printable c then [c]
      else [CHR 0x5C, CHR ''x'', hex_char (of_char c div 16), hex_char (of_char c mod 16)])"

definition py_repr :: "string \<Rightarrow> string" where
  "py_repr s =
     (let quote = (if CHR 0x27 \<in> set s \<and> CHR 0x22 \<notin> set s then CHR 0x22 else CHR 0x27)
      in quote # concat (map (repr_char quote) s) @ [quote])"

section \<open>The stock: a dict in insertion order\<close>

text \<open>
  \<open>stock_data\<close> is a Python \<open>dict\<close> from item names to quantities: a list of
  pairs in insertion order. Assigning to a key that is present keeps its place and
  assigning to a new key appends it.
\<close>

type_synonym stock = "(string \<times> int) list"

fun dict_get :: "stock \<Rightarrow> string \<Rightarrow> int option" where
  "dict_get [] k = None"
| "dict_get ((k', v) # d) k = (if k' = k then Some v else dict_get d k)"

fun dict_set :: "stock \<Rightarrow> string \<Rightarrow> int \<Rightarrow> stock" where
  "dict_set [] k v = [(k, v)]"
| "dict_set ((k', v') # d) k v = (if k' = k then (k, v) # d else (k', v') # dict_set d k v)"

fun dict_del :: "stock \<Rightarrow> string \<Rightarrow> stock" where
  "dict_del [] k = []"
| "dict_del ((k', v') # d) k = (if k' = k then dict_del d k else (k', v') # dict_del d k)"

section \<open>The inventory and its surroundings\<close>

text \<open>
  What \<open>open(file, "r", encoding="utf-8")\<close> finds at a path: nothing
  (\<open>FileNotFoundError\<close>), a file, which is kept as its bytes, or something that cannot
  be opened (another \<open>OSError\<close>, which is kept as its text). The text that is read from
  a file is its bytes decoded as UTF-8; the text that \<open>save_data\<close> writes is ASCII, so
  its bytes are its characters.
\<close>

datatype disk_entry = Missing | Holds string | Unreadable string

text \<open>
  How writing a path goes: the whole text is written; or \<open>open(file, "w")\<close> raises an
  \<open>OSError\<close>; or the file is opened, and so emptied, and an \<open>OSError\<close> is raised after
  some of the text has been written. The error is kept as the text \<open>str()\<close> gives for it.
\<close>

datatype writing = Writes | Refuses string | Breaks nat string

record state =
  stock_data :: stock
  stderr :: "string list"
  stdout :: "string list"
  files :: "string \<Rightarrow> disk_entry"
  writes :: "string \<Rightarrow> writing"

text \<open>\<open>Inventory()\<close>: an empty stock.\<close>

definition init :: "state \<Rightarrow> state" where
  "init s = s\<lparr>stock_data := []\<rparr>"

text \<open>\<open>print(msg, file=sys.stderr)\<close> and \<open>print(msg)\<close>.\<close>

definition eprint :: "string \<Rightarrow> state \<Rightarrow> state" where
  "eprint msg s = s\<lparr>stderr := stderr s @ [msg]\<rparr>"

definition print :: "string \<Rightarrow> state \<Rightarrow> state" where
  "print msg s = s\<lparr>stdout := stdout s @ [msg]\<rparr>"

definition item_error :: "pyval \<Rightarrow> string" where
  "item_error item = ''Error: Item name '' @ [CHR 0x27] @ py_str item @ [CHR 0x27] @ '' is not a valid string.''"

definition qty_error :: "pyval \<Rightarrow> string" where
  "qty_error qty =
     ''Error: Quantity '' @ [CHR 0x27] @ py_str qty @ [CHR 0x27] @ '' is not a valid non-negative integer.''"

section \<open>add_item\<close>

text \<open>
  \<open>logs\<close> is the caller's list, or \<open>None\<close>; \<open>now\<close> is the text of
  \<open>datetime.now()\<close>. The result is the new state and the caller's list after the call.
  With \<open>logs=None\<close> the record goes to a fresh list that nobody else sees.
\<close>

definition add_item ::
  "state \<Rightarrow> pyval \<Rightarrow> pyval \<Rightarrow> string list option \<Rightarrow> string \<Rightarrow> state \<times> string list option" where
  "add_item s item qty logs now =
     (case as_str item of
        None \<Rightarrow> (eprint (item_error item) s, logs)
      | Some name \<Rightarrow>
          if name = [] then (eprint (item_error item) s, logs)
          else (case as_int qty of
                  None \<Rightarrow> (eprint (qty_error qty) s, logs)
                | Some n \<Rightarrow>
                    if n < 0 then (eprint (qty_error qty) s, logs)
                    else
                      (s\<lparr>stock_data :=
                           dict_set (stock_data s) name
                             ((case dict_get (stock_data s) name of None \<Rightarrow> 0 | Some v \<Rightarrow> v) + n)\<rparr>,
                       (case logs of
                          None \<Rightarrow> None
                        | Some l \<Rightarrow> Some (l @ [now @ '': Added '' @ py_str qty @ '' of '' @ name])))))"

section \<open>remove_item\<close>

text \<open>
  The \<open>KeyError\<close> raised for an item that is not in the stock is caught at once and
  printed; with integer quantities the subtraction raises no \<open>TypeError\<close>.
\<close>

definition not_in_stock :: "string \<Rightarrow> string" where
  "not_in_stock name = ''Item '' @ [CHR 0x27] @ name @ [CHR 0x27] @ '' not in stock. Cannot remove.''"

definition remove_item :: "state \<Rightarrow> pyval \<Rightarrow> pyval \<Rightarrow> state" where
  "remove_item s item qty =
     (case as_str item of
        None \<Rightarrow> eprint (item_error item) s
      | Some name \<Rightarrow>
          if name = [] then eprint (item_error item) s
          else (case as_int qty of
                  None \<Rightarrow> eprint (qty_error qty) s
                | Some n \<Rightarrow>
                    if n < 0 then eprint (qty_error qty) s
                    else (case dict_get (stock_data s) name of
                            None \<Rightarrow> eprint (''Error removing item: '' @ py_repr (not_in_stock name)) s
                          | Some v \<Rightarrow>
                              let d = dict_set (stock_data s) name (v - n)
                              in if v - n \<le> 0 then s\<lparr>stock_data := dict_del d name\<rparr>
                                 else s\<lparr>stock_data := d\<rparr>)))"

section \<open>get_qty, print_data, check_low_items\<close>

text \<open>
  A default argument (\<open>threshold=5\<close>, and \<open>file="inventory.json"\<close> of \<open>load_data\<close> and
  \<open>save_data\<close>) is the argument of a call that leaves it out; the functions here take
  the argument always.
\<close>

definition get_qty :: "state \<Rightarrow> string \<Rightarrow> int" where
  "get_qty s item = (case dict_get (stock_data s) item of None \<Rightarrow> 0 | Some v \<Rightarrow> v)"

text \<open>One \<open>print\<close> for each item of the stock, in the order of the dict.\<close>

fun print_items :: "stock \<Rightarrow> state \<Rightarrow> state" where
  "print_items [] s = s"
| "print_items ((item, qty) # d) s = print_items d (print (item @ '' -> '' @ show_int qty) s)"

definition print_data :: "state \<Rightarrow> state" where
  "print_data s =
     (let s1 = print (CHR 0x0A # ''--- Items Report ---'') s;
          s2 = (if stock_data s1 = [] then print ''Inventory is empty.'' s1
                else print_items (stock_data s1) s1)
      in print (''--------------------'' @ [CHR 0x0A]) s2)"

text \<open>The loop of \<open>check_low_items\<close>, with \<open>low_stock_items\<close> as the accumulator.\<close>

fun low_loop :: "int \<Rightarrow> stock \<Rightarrow> string list \<Rightarrow> string list" where
  "low_loop threshold [] low_stock_items = low_stock_items"
| "low_loop threshold ((item, qty) # d) low_stock_items =
     low_loop threshold d (if qty < threshold then low_stock_items @ [item] else low_stock_items)"

definition check_low_items :: "state \<Rightarrow> int \<Rightarrow> string list" where
  "check_low_items s threshold = low_loop threshold (stock_data s) []"

section \<open>JSON text\<close>

text \<open>
  \<open>save_data\<close> and \<open>load_data\<close> call Python's \<open>json\<close> module, which is not part of the
  program. This section follows the module on the persisted format: what
  \<open>json.dump(stock_data, f, indent=4)\<close> writes for a dict from \<open>str\<close> to \<open>int\<close>, and what
  \<open>json.load(f)\<close> does with the bytes of a file: whether it raises, and which dict it
  returns when the root is an object of integers. The bounds of the interpreter are not
  modelled: integers are written and read in full, whatever their number of digits, and
  values are read however deeply they are nested.
\<close>

subsection \<open>Writing\<close>

text \<open>
  A string is written between double quotes, with \<open>ensure_ascii\<close>: the quote, the
  backslash and the control characters that have a short escape get it, any other
  character outside the range from the space to the tilde is written \<open>\u00hh\<close>.
\<close>

definition json_escape_char :: "char \<Rightarrow> string" where
  "json_escape_char c =
     (if c = CHR 0x22 then [CHR 0x5C, CHR 0x22]
      else if c = CHR 0x5C then [CHR 0x5C, CHR 0x5C]
      else if c = CHR 0x0A then [CHR 0x5C, CHR ''n'']
      else if c = CHR 0x0D then [CHR 0x5C, CHR ''r'']
      else if c = CHR 0x09 then [CHR 0x5C, CHR ''t'']
      else if c = CHR 0x08 then [CHR 0x5C, CHR ''b'']
      else if c = CHR 0x0C then [CHR 0x5C, CHR ''f'']
      else if 32 \<le> (of_char c :: nat) \<and> (of_char c :: nat) < 127 then [c]
      else [CHR 0x5C, CHR ''u'', CHR ''0'', CHR ''0'',
            hex_char (of_char c div 16), hex_char (of_char c mod 16)])"

definition json_string :: "string \<Rightarrow> string" where
  "json_string s = CHR 0x22 # concat (map json_escape_char s) @ [CHR 0x22]"

text \<open>
  The entries of a dict that is not empty, each on a line of its own: \<open>first\<close> is the
  flag of the encoder's loop, the separator of two entries is a comma and a newline with
  the indentation, and \<open>": "\<close> stands between a key and its value.
\<close>

fun iterencode_dict :: "bool \<Rightarrow> stock \<Rightarrow> string" where
  "iterencode_dict first [] = []"
| "iterencode_dict first ((key, val) # d) =
     (if first then [] else CHR '','' # CHR 0x0A # ''    '') @
     json_string key @ '': '' @ show_int val @ iterencode_dict False d"

definition json_dumps :: "stock \<Rightarrow> string" where
  "json_dumps d =
     (if d = [] then ''{}''
      else ''{'' @ CHR 0x0A # ''    '' @ iterencode_dict True d @ [CHR 0x0A] @ ''}'')"

subsection \<open>Reading\<close>

text \<open>The result of a scanner: the text is not valid JSON, or a value and the text after it.\<close>

datatype 'a scan = Invalid | Got 'a

definition is_ws :: "char \<Rightarrow> bool" where
  "is_ws c = (c = CHR '' '' \<or> c = CHR 0x09 \<or> c = CHR 0x0A \<or> c = CHR 0x0D)"

definition skip_ws :: "string \<Rightarrow> string" where
  "skip_ws cs = dropWhile is_ws cs"

definition is_digit :: "char \<Rightarrow> bool" where
  "is_digit c = (48 \<le> (of_char c :: nat) \<and> (of_char c :: nat) \<le> 57)"

definition digit_val :: "char \<Rightarrow> nat" where
  "digit_val c = of_char c - 48"

text \<open>
  The bytes of a file are UTF-8 text when each character is encoded as the strict decoder
  has it: one byte below 0x80, or a lead byte and its continuation bytes, with no overlong
  form, no surrogate and nothing above U+10FFFF.
\<close>

definition continuation :: "char \<Rightarrow> bool" where
  "continuation b = (128 \<le> (of_char b :: nat) \<and> (of_char b :: nat) \<le> 191)"

definition second_of_three :: "char \<Rightarrow> char \<Rightarrow> bool" where
  "second_of_three b0 b1 =
     (if b0 = CHR 0xE0 then 160 \<le> (of_char b1 :: nat) \<and> (of_char b1 :: nat) \<le> 191
      else if b0 = CHR 0xED then 128 \<le> (of_char b1 :: nat) \<and> (of_char b1 :: nat) \<le> 159
      else continuation b1)"

definition second_of_four :: "char \<Rightarrow> char \<Rightarrow> bool" where
  "second_of_four b0 b1 =
     (if b0 = CHR 0xF0 then 144 \<le> (of_char b1 :: nat) \<and> (of_char b1 :: nat) \<le> 191
      else if b0 = CHR 0xF4 then 128 \<le> (of_char b1 :: nat) \<and> (of_char b1 :: nat) \<le> 143
      else continuation b1)"

fun utf8_valid :: "string \<Rightarrow> bool" where
  "utf8_valid [] = True"
| "utf8_valid (b0 # bs) =
     (if (of_char b0 :: nat) < 128 then utf8_valid bs
      else if 194 \<le> (of_char b0 :: nat) \<and> (of_char b0 :: nat) \<le> 223 then
        (case bs of
           b1 # r \<Rightarrow> continuation b1 \<and> utf8_valid r
         | _ \<Rightarrow> False)
      else if 224 \<le> (of_char b0 :: nat) \<and> (of_char b0 :: nat) \<le> 239 then
        (case bs of
           b1 # b2 # r \<Rightarrow> second_of_three b0 b1 \<and> continuation b2 \<and> utf8_valid r
         | _ \<Rightarrow> False)
      else if 240 \<le> (of_char b0 :: nat) \<and> (of_char b0 :: nat) \<le> 244 then
        (case bs of
           b1 # b2 # b3 # r \<Rightarrow> second_of_four b0 b1 \<and> continuation b2 \<and> continuation b3 \<and> utf8_valid r
         | _ \<Rightarrow> False)
      else False)"

text \<open>The four hexadecimal digits of an escape that gives a code point.\<close>

definition hex_val :: "char \<Rightarrow> nat option" where
  "hex_val c = (let n = (of_char c :: nat) in
     if 48 \<le> n \<and> n \<le> 57 then Some (n - 48)
     else if 97 \<le> n \<and> n \<le> 102 then Some (n - 87)
     else if 65 \<le> n \<and> n \<le> 70 then Some (n - 55)
     else None)"

definition decode_uXXXX :: "char \<Rightarrow> char \<Rightarrow> char \<Rightarrow> char \<Rightarrow> nat option" where
  "decode_uXXXX a b c d =
     (case (hex_val a, hex_val b, hex_val c, hex_val d) of
        (Some h3, Some h2, Some h1, Some h0) \<Rightarrow> Some (((h3 * 16 + h2) * 16 + h1) * 16 + h0)
      | _ \<Rightarrow> None)"

text \<open>The escapes of one character.\<close>

definition backslash :: "char \<Rightarrow> char option" where
  "backslash e =
     (if e = CHR 0x22 then Some (CHR 0x22)
      else if e = CHR 0x5C then Some (CHR 0x5C)
      else if e = CHR ''/'' then Some (CHR ''/'')
      else if e = CHR ''b'' then Some (CHR 0x08)
      else if e = CHR ''f'' then Some (CHR 0x0C)
      else if e = CHR ''n'' then Some (CHR 0x0A)
      else if e = CHR ''r'' then Some (CHR 0x0D)
      else if e = CHR ''t'' then Some (CHR 0x09)
      else None)"

text \<open>
  \<open>scanstring\<close> reads a string from behind its opening quote, in strict mode: a control
  character in the string is an error. It reads the bytes of the text: the two bytes of a
  character from U+0080 to U+00FF give that character, and the string is \<open>None\<close> when
  a character above U+00FF, written as its bytes or as an escape, is in it. Such a string
  is valid all the same.
\<close>

definition two_bytes :: "char \<Rightarrow> char \<Rightarrow> char" where
  "two_bytes b0 b1 = char_of ((of_char b0 - 192) * 64 + (of_char b1 - 128) :: nat)"

fun push :: "char \<Rightarrow> (string option \<times> string) scan \<Rightarrow> (string option \<times> string) scan" where
  "push c (Got (Some s, rest)) = Got (Some (c # s), rest)"
| "push c (Got (None, rest)) = Got (None, rest)"
| "push c Invalid = Invalid"

fun beyond :: "(string option \<times> string) scan \<Rightarrow> (string option \<times> string) scan" where
  "beyond (Got (s, rest)) = Got (None, rest)"
| "beyond Invalid = Invalid"

fun scanstring :: "string \<Rightarrow> (string option \<times> string) scan" where
  "scanstring [] = Invalid"
| "scanstring (c # cs) =
     (if c = CHR 0x22 then Got (Some [], cs)
      else if c = CHR 0x5C then
        (case cs of
           [] \<Rightarrow> Invalid
         | e # cs1 \<Rightarrow>
             if e = CHR ''u'' then
               (case cs1 of
                  h3 # h2 # h1 # h0 # cs2 \<Rightarrow>
                    (case decode_uXXXX h3 h2 h1 h0 of
                       None \<Rightarrow> Invalid
                     | Some n \<Rightarrow> if n < 256 then push (char_of n) (scanstring cs2)
                                else beyond (scanstring cs2))
                | _ \<Rightarrow> Invalid)
             else (case backslash e of
                     None \<Rightarrow> Invalid
                   | Some ch \<Rightarrow> push ch (scanstring cs1)))
      else if (of_char c :: nat) < 32 then Invalid
      else if (of_char c :: nat) < 128 then push c (scanstring cs)
      else if c = CHR 0xC2 \<or> c = CHR 0xC3 then
        (case cs of
           [] \<Rightarrow> Invalid
         | b # cs1 \<Rightarrow> push (two_bytes c b) (scanstring cs1))
      else beyond (scanstring cs))"

text \<open>
  A value is an \<open>int\<close> or something else: a \<open>float\<close>, a string, \<open>None\<close>, a \<open>bool\<close>, a list or
  a dict, of which only the validity of its text is followed.
\<close>

datatype jval = JInt int | JOther

fun nat_of_digits :: "nat \<Rightarrow> string \<Rightarrow> nat" where
  "nat_of_digits acc [] = acc"
| "nat_of_digits acc (c # cs) = nat_of_digits (10 * acc + digit_val c) cs"

definition int_part :: "string \<Rightarrow> (nat \<times> string) option" where
  "int_part cs =
     (case cs of
        [] \<Rightarrow> None
      | d # r \<Rightarrow>
          if d = CHR ''0'' then Some (0, r)
          else if is_digit d then Some (nat_of_digits 0 (takeWhile is_digit cs), dropWhile is_digit cs)
          else None)"

text \<open>
  A number is an optional minus sign and an integer part without leading zeros; with a
  fraction (a point and digits) or an exponent (\<open>e\<close> or \<open>E\<close>, an optional sign and digits)
  behind it, it is a \<open>float\<close>.
\<close>

definition after_frac :: "string \<Rightarrow> string option" where
  "after_frac cs =
     (case cs of
        c # d # r \<Rightarrow> if c = CHR ''.'' \<and> is_digit d then Some (dropWhile is_digit r) else None
      | _ \<Rightarrow> None)"

definition after_exp :: "string \<Rightarrow> string option" where
  "after_exp cs =
     (case cs of
        [] \<Rightarrow> None
      | c # r \<Rightarrow>
          if c = CHR ''e'' \<or> c = CHR ''E'' then
            (case (case r of
                     [] \<Rightarrow> r
                   | sign # r' \<Rightarrow> if sign = CHR ''-'' \<or> sign = CHR ''+'' then r' else r) of
               [] \<Rightarrow> None
             | d # r'' \<Rightarrow> if is_digit d then Some (dropWhile is_digit r'') else None)
          else None)"

definition number_end :: "int \<Rightarrow> string \<Rightarrow> jval \<times> string" where
  "number_end i rest =
     (case after_frac rest of
        Some rest1 \<Rightarrow> (JOther, case after_exp rest1 of Some rest2 \<Rightarrow> rest2 | None \<Rightarrow> rest1)
      | None \<Rightarrow> (case after_exp rest of Some rest2 \<Rightarrow> (JOther, rest2) | None \<Rightarrow> (JInt i, rest)))"

definition match_number :: "string \<Rightarrow> (jval \<times> string) scan" where
  "match_number cs =
     (case cs of
        [] \<Rightarrow> Invalid
      | c # r \<Rightarrow>
          if c = CHR ''-'' then
            (case int_part r of None \<Rightarrow> Invalid | Some (n, rest) \<Rightarrow> Got (number_end (- int n) rest))
          else
            (case int_part cs of None \<Rightarrow> Invalid | Some (n, rest) \<Rightarrow> Got (number_end (int n) rest)))"

text \<open>The values that have no parts: \<open>null\<close>, \<open>true\<close>, \<open>false\<close>, \<open>NaN\<close>, the infinities and numbers.\<close>

definition scan_scalar :: "string \<Rightarrow> (jval \<times> string) scan" where
  "scan_scalar cs =
     (if take 4 cs = ''null'' then Got (JOther, drop 4 cs)
      else if take 4 cs = ''true'' then Got (JOther, drop 4 cs)
      else if take 5 cs = ''false'' then Got (JOther, drop 5 cs)
      else if take 3 cs = ''NaN'' then Got (JOther, drop 3 cs)
      else if take 8 cs = ''Infinity'' then Got (JOther, drop 8 cs)
      else if take 9 cs = ''-Infinity'' then Got (JOther, drop 9 cs)
      else match_number cs)"

text \<open>A key from behind its opening quote, the colon and the white space around it.\<close>

definition read_key :: "string \<Rightarrow> (string option \<times> string) scan" where
  "read_key cs =
     (case scanstring cs of
        Invalid \<Rightarrow> Invalid
      | Got (key, r1) \<Rightarrow>
          (case skip_ws r1 of
             [] \<Rightarrow> Invalid
           | c # r2 \<Rightarrow> if c = CHR '':'' then Got (key, skip_ws r2) else Invalid))"

text \<open>
  The library reads nested values by recursion. Here the open containers are a stack and
  reading is one loop: \<open>Value\<close> reads the value at the head of the text, \<open>After v\<close> goes on
  behind a value that was read. The pairs of the root object are collected, with the key of
  the entry that is being read; the entries of inner objects are checked and dropped. Each
  scanner leaves less text than it was given, which is why the loop ends.
\<close>

datatype frame = In_array | In_object

datatype mode = Value | After jval

datatype root = Root_object "(string option \<times> jval) list" | Root_other

lemma push_Got: "push c r = Got (s, rest) \<Longrightarrow> \<exists>s'. r = Got (s', rest)"
  by (cases "(c, r)" rule: push.cases) auto

lemma beyond_Got: "beyond r = Got (s, rest) \<Longrightarrow> \<exists>s'. r = Got (s', rest)"
  by (cases r rule: beyond.cases) auto

lemma scanstring_shorter: "scanstring cs = Got (s, rest) \<Longrightarrow> length rest < length cs"
proof (induction cs arbitrary: s rule: scanstring.induct)
  case 1
  then show ?case by simp
next
  case (2 c cs)
  note prem = "2.prems"
  show ?case
  proof (cases "c = CHR 0x22")
    case True
    with prem show ?thesis by simp
  next
    case q: False
    show ?thesis
    proof (cases "c = CHR 0x5C")
      case True
      with q prem obtain e cs1 where cs: "cs = e # cs1"
        by (cases cs) auto
      show ?thesis
      proof (cases "e = CHR ''u''")
        case False
        with q True cs prem obtain ch s' where "backslash e = Some ch" "scanstring cs1 = Got (s', rest)"
          by (auto split: option.splits dest: push_Got)
        with "2.IH"(3) [OF q True cs False] cs show ?thesis by fastforce
      next
        case u: True
        with q True cs prem obtain h3 h2 h1 h0 cs2 n where
          cs1: "cs1 = h3 # h2 # h1 # h0 # cs2" and d: "decode_uXXXX h3 h2 h1 h0 = Some n"
          by (auto split: list.splits option.splits)
        with q True cs u prem obtain s' where r: "scanstring cs2 = Got (s', rest)"
          by (auto split: if_splits dest: push_Got beyond_Got)
        have "length rest < length cs2"
        proof (cases "n < 256")
          case True
          from "2.IH"(1) [OF q \<open>c = CHR 0x5C\<close> cs u cs1 refl refl refl d True r] show ?thesis .
        next
          case False
          from "2.IH"(2) [OF q \<open>c = CHR 0x5C\<close> cs u cs1 refl refl refl d False r] show ?thesis .
        qed
        with cs cs1 show ?thesis by simp
      qed
    next
      case b: False
      with q prem have ge: "\<not> (of_char c :: nat) < 32"
        by (auto split: if_splits)
      show ?thesis
      proof (cases "(of_char c :: nat) < 128")
        case True
        with q b ge prem obtain s' where "scanstring cs = Got (s', rest)"
          by (auto dest: push_Got)
        with "2.IH"(4) [OF q b ge True] show ?thesis by fastforce
      next
        case hi: False
        show ?thesis
        proof (cases "c = CHR 0xC2 \<or> c = CHR 0xC3")
          case True
          with q b ge hi have eq: "scanstring (c # cs) =
              (case cs of [] \<Rightarrow> Invalid | b1 # cs1 \<Rightarrow> push (two_bytes c b1) (scanstring cs1))"
            by simp
          note prem' = prem [unfolded eq]
          from prem' obtain b1 cs1 where cs: "cs = b1 # cs1"
            by (cases cs) auto
          with prem' obtain s' where r: "scanstring cs1 = Got (s', rest)"
            by (auto dest: push_Got)
          from "2.IH"(5) [OF q b ge hi True cs r] cs show ?thesis by simp
        next
          case False
          with q b ge hi have eq: "scanstring (c # cs) = beyond (scanstring cs)"
            by simp
          from prem [unfolded eq] obtain s' where r: "scanstring cs = Got (s', rest)"
            by (auto dest: beyond_Got)
          from "2.IH"(6) [OF q b ge hi False r] show ?thesis by simp
        qed
      qed
    qed
  qed
qed

lemma skip_ws_length: "length (skip_ws cs) \<le> length cs"
  by (simp add: skip_ws_def length_dropWhile_le)

lemma read_key_shorter: "read_key cs = Got (k, rest) \<Longrightarrow> length rest < length cs"
proof -
  assume a: "read_key cs = Got (k, rest)"
  then obtain r1 c r2 where s: "scanstring cs = Got (k, r1)" and w: "skip_ws r1 = c # r2" and r: "rest = skip_ws r2"
    by (auto simp: read_key_def split: scan.splits list.splits if_splits)
  have "length rest \<le> length r2" using r skip_ws_length by simp
  moreover have "length (c # r2) \<le> length r1" using w skip_ws_length [of r1] by simp
  moreover have "length r1 < length cs" using s by (rule scanstring_shorter)
  ultimately show ?thesis by simp
qed

lemma int_part_shorter: "int_part cs = Some (n, rest) \<Longrightarrow> length rest < length cs"
  by (auto simp: int_part_def le_imp_less_Suc [OF length_dropWhile_le] split: list.splits if_splits)

lemma after_frac_shorter: "after_frac cs = Some rest \<Longrightarrow> length rest < length cs"
  by (auto simp: after_frac_def le_imp_less_Suc [OF le_SucI [OF length_dropWhile_le]]
      split: list.splits if_splits)

lemma after_exp_shorter: "after_exp cs = Some rest \<Longrightarrow> length rest < length cs"
proof -
  assume a: "after_exp cs = Some rest"
  then obtain c r where cs: "cs = c # r" by (cases cs) (auto simp: after_exp_def)
  define r1 where "r1 = (case r of [] \<Rightarrow> r | sign # r' \<Rightarrow> if sign = CHR ''-'' \<or> sign = CHR ''+'' then r' else r)"
  have l1: "length r1 \<le> length r" by (auto simp: r1_def split: list.splits)
  from a cs obtain d r'' where r1: "r1 = d # r''" and rest: "rest = dropWhile is_digit r''"
    by (auto simp: after_exp_def r1_def [symmetric] split: if_splits list.splits)
  have "length rest \<le> length r''" by (simp add: rest length_dropWhile_le)
  with l1 r1 cs show ?thesis by simp
qed

lemma number_end_length: "length (snd (number_end i r)) \<le> length r"
  by (auto simp: number_end_def split: option.splits
      dest!: after_frac_shorter after_exp_shorter)

lemma match_number_shorter:
  assumes "match_number cs = Got (v, rest)"
  shows "length rest < length cs"
proof -
  from assms obtain c r where cs: "cs = c # r"
    by (cases cs) (auto simp: match_number_def)
  show ?thesis
  proof (cases "c = CHR ''-''")
    case True
    with assms cs obtain n r0 where ip: "int_part r = Some (n, r0)" and e: "number_end (- int n) r0 = (v, rest)"
      by (auto simp: match_number_def split: option.splits)
    from number_end_length [of "- int n" r0] e have "length rest \<le> length r0" by simp
    with int_part_shorter [OF ip] cs show ?thesis by simp
  next
    case False
    with assms cs obtain n r0 where ip: "int_part cs = Some (n, r0)" and e: "number_end (int n) r0 = (v, rest)"
      by (auto simp: match_number_def split: option.splits)
    from number_end_length [of "int n" r0] e have "length rest \<le> length r0" by simp
    with int_part_shorter [OF ip] show ?thesis by simp
  qed
qed

lemma scan_scalar_shorter: "scan_scalar cs = Got (v, rest) \<Longrightarrow> length rest < length cs"
proof -
  assume a: "scan_scalar cs = Got (v, rest)"
  have t: "take n cs = lit \<Longrightarrow> 0 < length lit \<Longrightarrow> length (drop n cs) < length cs" for n lit
    by (cases cs) auto
  from a show ?thesis
    unfolding scan_scalar_def
    by (auto split: if_splits dest: match_number_shorter t)
qed

function decode ::
  "mode \<Rightarrow> frame list \<Rightarrow> string option \<Rightarrow> (string option \<times> jval) list \<Rightarrow> string \<Rightarrow> (root \<times> string) scan" where
  "decode Value st key pairs cs =
     (case cs of
        [] \<Rightarrow> Invalid
      | c # r \<Rightarrow>
          if c = CHR 0x22 then
            (case scanstring r of
               Invalid \<Rightarrow> Invalid
             | Got (s, rest) \<Rightarrow> decode (After JOther) st key pairs rest)
          else if c = CHR ''{'' then
            (case skip_ws r of
               [] \<Rightarrow> Invalid
             | nextchar # r1 \<Rightarrow>
                 if nextchar = CHR ''}'' then
                   (if st = [] then Got (Root_object [], r1) else decode (After JOther) st key pairs r1)
                 else if nextchar = CHR 0x22 then
                   (case read_key r1 of
                      Invalid \<Rightarrow> Invalid
                    | Got (k, rest) \<Rightarrow> decode Value (In_object # st) (if st = [] then k else key) pairs rest)
                 else Invalid)
          else if c = CHR ''['' then
            (case skip_ws r of
               [] \<Rightarrow> Invalid
             | nextchar # r1 \<Rightarrow>
                 if nextchar = CHR '']'' then decode (After JOther) st key pairs r1
                 else decode Value (In_array # st) key pairs (nextchar # r1))
          else
            (case scan_scalar cs of
               Invalid \<Rightarrow> Invalid
             | Got (v, rest) \<Rightarrow> decode (After v) st key pairs rest))"
| "decode (After v) [] key pairs cs = Got (Root_other, cs)"
| "decode (After v) (In_array # st) key pairs cs =
     (case skip_ws cs of
        [] \<Rightarrow> Invalid
      | nextchar # r \<Rightarrow>
          if nextchar = CHR '']'' then decode (After JOther) st key pairs r
          else if nextchar = CHR '','' then decode Value (In_array # st) key pairs (skip_ws r)
          else Invalid)"
| "decode (After v) (In_object # st) key pairs cs =
     (case skip_ws cs of
        [] \<Rightarrow> Invalid
      | nextchar # r \<Rightarrow>
          if nextchar = CHR ''}'' then
            (if st = [] then Got (Root_object (pairs @ [(key, v)]), r)
             else decode (After JOther) st key pairs r)
          else if nextchar = CHR '','' then
            (case skip_ws r of
               [] \<Rightarrow> Invalid
             | q # r1 \<Rightarrow>
                 if q = CHR 0x22 then
                   (case read_key r1 of
                      Invalid \<Rightarrow> Invalid
                    | Got (k, rest) \<Rightarrow>
                        if st = [] then decode Value (In_object # st) k (pairs @ [(key, v)]) rest
                        else decode Value (In_object # st) key pairs rest)
                 else Invalid)
          else Invalid)"
  by pat_completeness auto
termination
proof (relation "measure (\<lambda>(m, st, key, pairs, cs). length cs)", goal_cases)
  case 1
  show ?case by simp
next
  case (2 st key pairs cs c r x s rest)
  then show ?case by (auto dest: scanstring_shorter)
next
  case (3 st key pairs cs c r nextchar r1)
  then show ?case using skip_ws_length [of r] by auto
next
  case (4 st key pairs cs c r nextchar r1 x k rest)
  then show ?case using skip_ws_length [of r] by (auto dest!: read_key_shorter)
next
  case (5 st key pairs cs c r nextchar r1)
  then show ?case using skip_ws_length [of r] by auto
next
  case (6 st key pairs cs c r nextchar r1)
  then show ?case using skip_ws_length [of r] by auto
next
  case (7 st key pairs cs c r x v rest)
  then show ?case by (auto dest: scan_scalar_shorter)
next
  case (8 v st key pairs cs nextchar r)
  then show ?case using skip_ws_length [of cs] by auto
next
  case (9 v st key pairs cs nextchar r)
  then show ?case using skip_ws_length [of cs] skip_ws_length [of r] by auto
next
  case (10 v st key pairs cs nextchar r)
  then show ?case using skip_ws_length [of cs] by auto
next
  case (11 v st key pairs cs nextchar r q r1 x k rest)
  then show ?case using skip_ws_length [of cs] skip_ws_length [of r] by (auto dest!: read_key_shorter)
next
  case (12 v st key pairs cs nextchar r q r1 x k rest)
  then show ?case using skip_ws_length [of cs] skip_ws_length [of r] by (auto dest!: read_key_shorter)
qed

declare decode.simps [simp del]

text \<open>
  The dict of the pairs read: a key that comes again keeps its place and takes the new
  value. It is the stock when every key is a string of the model and every value an \<open>int\<close>.
\<close>

fun pairs_set :: "(string \<times> jval) list \<Rightarrow> string \<Rightarrow> jval \<Rightarrow> (string \<times> jval) list" where
  "pairs_set [] k v = [(k, v)]"
| "pairs_set ((k', v') # d) k v = (if k' = k then (k, v) # d else (k', v') # pairs_set d k v)"

fun dict_of_pairs :: "(string \<times> jval) list \<Rightarrow> (string option \<times> jval) list \<Rightarrow> (string \<times> jval) list option" where
  "dict_of_pairs d [] = Some d"
| "dict_of_pairs d ((None, v) # pairs) = None"
| "dict_of_pairs d ((Some k, v) # pairs) = dict_of_pairs (pairs_set d k v) pairs"

fun stock_of :: "(string \<times> jval) list \<Rightarrow> stock option" where
  "stock_of [] = Some []"
| "stock_of ((k, JInt i) # d) = map_option (\<lambda>d'. (k, i) # d') (stock_of d)"
| "stock_of ((k, JOther) # d) = None"

text \<open>
  \<open>json.load\<close> on a file with these bytes: reading raises \<open>UnicodeDecodeError\<close> when the
  bytes are not UTF-8 text; \<open>JSONDecodeError\<close> is raised when the text is not valid JSON;
  a dict of integers is returned; or another value is returned, which the stock of this
  model cannot hold (\<open>Unmodelled\<close>).
\<close>

datatype decoded = UnicodeDecodeError | JSONDecodeError | Decoded stock | Unmodelled

definition json_loads :: "string \<Rightarrow> decoded" where
  "json_loads text =
     (if \<not> utf8_valid text then UnicodeDecodeError
      else
        (case decode Value [] None [] (skip_ws text) of
           Invalid \<Rightarrow> JSONDecodeError
         | Got (root, rest) \<Rightarrow>
             if skip_ws rest \<noteq> [] then JSONDecodeError
             else
               (case root of
                  Root_other \<Rightarrow> Unmodelled
                | Root_object pairs \<Rightarrow>
                    (case dict_of_pairs [] pairs of
                       None \<Rightarrow> Unmodelled
                     | Some d \<Rightarrow> (case stock_of d of None \<Rightarrow> Unmodelled | Some d' \<Rightarrow> Decoded d')))))"

section \<open>load_data and save_data\<close>

text \<open>
  \<open>load_data\<close> catches \<open>FileNotFoundError\<close> and \<open>JSONDecodeError\<close>. Any other exception
  leaves the function (\<open>Raises\<close>, with the inventory as it was): an \<open>OSError\<close> of \<open>open\<close>,
  kept as its text, or the \<open>UnicodeDecodeError\<close> of reading bytes that are not UTF-8
  text, kept as its name. \<open>Not_modelled\<close> marks a file whose JSON is valid and is not a
  dict of integers: the assignment succeeds in the program, with a value that the stock
  of this model cannot hold.
\<close>

datatype outcome = Returns state | Raises string | Not_modelled

definition not_found_warning :: "string \<Rightarrow> string" where
  "not_found_warning file =
     ''Warning: File '' @ [CHR 0x27] @ file @ [CHR 0x27] @ '' not found. Starting with empty inventory.''"

definition decode_error :: "string \<Rightarrow> string" where
  "decode_error file =
     ''Error: Could not decode JSON from '' @ [CHR 0x27] @ file @ [CHR 0x27] @
     ''. Starting with empty inventory.''"

definition load_data :: "state \<Rightarrow> string \<Rightarrow> outcome" where
  "load_data s file =
     (case files s file of
        Missing \<Rightarrow> Returns ((eprint (not_found_warning file) s)\<lparr>stock_data := []\<rparr>)
      | Unreadable e \<Rightarrow> Raises e
      | Holds text \<Rightarrow>
          (case json_loads text of
             Decoded d \<Rightarrow> Returns (s\<lparr>stock_data := d\<rparr>)
           | JSONDecodeError \<Rightarrow> Returns ((eprint (decode_error file) s)\<lparr>stock_data := []\<rparr>)
           | UnicodeDecodeError \<Rightarrow> Raises ''UnicodeDecodeError''
           | Unmodelled \<Rightarrow> Not_modelled))"

text \<open>
  \<open>save_data\<close> catches \<open>IOError\<close>, which is \<open>OSError\<close>, and prints it. A file that was
  opened keeps what was written before the error.
\<close>

definition save_error :: "string \<Rightarrow> string \<Rightarrow> string" where
  "save_error file e = ''Error saving data to '' @ [CHR 0x27] @ file @ [CHR 0x27] @ '': '' @ e"

definition save_data :: "state \<Rightarrow> string \<Rightarrow> state" where
  "save_data s file =
     (case writes s file of
        Writes \<Rightarrow> s\<lparr>files := (files s)(file := Holds (json_dumps (stock_data s)))\<rparr>
      | Refuses e \<Rightarrow> eprint (save_error file e) s
      | Breaks n e \<Rightarrow>
          eprint (save_error file e)
            (s\<lparr>files := (files s)(file := Holds (take n (json_dumps (stock_data s))))\<rparr>))"

section \<open>Notions of the specification\<close>

text \<open>The invariant of the specification: every quantity in the stock is strictly positive.\<close>

fun positive_stock :: "stock \<Rightarrow> bool" where
  "positive_stock [] = True"
| "positive_stock ((item, qty) # d) = (0 < qty \<and> positive_stock d)"

text \<open>
  An invalid item is empty or not text, an invalid quantity is negative or not an integer:
  the two tests at the head of \<open>add_item\<close> and \<open>remove_item\<close>.
\<close>

definition invalid_item :: "pyval \<Rightarrow> bool" where
  "invalid_item item = (case as_str item of None \<Rightarrow> True | Some name \<Rightarrow> name = [])"

definition invalid_qty :: "pyval \<Rightarrow> bool" where
  "invalid_qty qty = (case as_int qty of None \<Rightarrow> True | Some n \<Rightarrow> n < 0)"

text \<open>
  Low stock as the specification words it: the items whose quantity is strictly less than
  the threshold, in the order of the mapping.
\<close>

definition low_stock_spec :: "stock \<Rightarrow> int \<Rightarrow> string list" where
  "low_stock_spec d T = map fst (filter (\<lambda>(item, qty). qty < T) d)"

section \<open>States and files for examples\<close>

text \<open>
  A fresh inventory in a directory without files, and the stock that \<open>main\<close> has built
  when it prints its report.
\<close>

definition start :: state where
  "start = \<lparr>stock_data = [], stderr = [], stdout = [], files = (\<lambda>p. Missing), writes = (\<lambda>p. Writes)\<rparr>"

definition stocked :: state where
  "stocked = start\<lparr>stock_data := [(''apple'', 7), (''banana'', 15)]\<rparr>"

text \<open>A directory in which no file can be written.\<close>

definition denied :: state where
  "denied = stocked\<lparr>writes := (\<lambda>p. Refuses (''[Errno 13] Permission denied: '' @ [CHR 0x27] @ p @ [CHR 0x27]))\<rparr>"

text \<open>A file with a negative and a zero quantity, and a directory where every path holds it.\<close>

definition zero_file :: string where
  "zero_file = ''{'' @ json_string ''x'' @ '': -3, '' @ json_string ''y'' @ '': 0}''"

definition negative_file :: state where
  "negative_file = start\<lparr>files := (\<lambda>p. Holds zero_file)\<rparr>"








section \<open>The shape of the text that json_dumps writes\<close>

text \<open>What may follow a number in the text that \<open>json_dumps\<close> writes: a comma or a newline.\<close>

definition ends_number :: "string \<Rightarrow> bool" where
  "ends_number rest = (\<exists>r. rest = CHR '','' # r \<or> rest = CHR 0x0A # r)"

text \<open>
  The text that \<open>json_dumps\<close> writes from the value of an entry to the closing brace, with
  the entries after it, and the text after the brace.
\<close>

definition entry_text :: "int \<Rightarrow> stock \<Rightarrow> string \<Rightarrow> string" where
  "entry_text v d rest = show_int v @ iterencode_dict False d @ CHR 0x0A # ''}'' @ rest"

section \<open>Facts about the dict\<close>

lemma dict_get_set: "dict_get (dict_set d k v) k' = (if k' = k then Some v else dict_get d k')"
  by (induction d) auto

lemma dict_get_del: "dict_get (dict_del d k) k' = (if k' = k then None else dict_get d k')"
  by (induction d) auto

lemma dict_get_None_iff: "dict_get d k = None \<longleftrightarrow> k \<notin> fst ` set d"
  by (induction d) (auto split: if_splits)

lemma keys_dict_del: "k' \<in> fst ` set (dict_del d k) \<longleftrightarrow> k' \<in> fst ` set d \<and> k' \<noteq> k"
  using dict_get_None_iff [of "dict_del d k" k'] dict_get_None_iff [of d k']
  by (simp add: dict_get_del split: if_splits)

lemma dict_get_Some_mem: "dict_get d k = Some v \<Longrightarrow> (k, v) \<in> set d"
  by (induction d) (auto split: if_splits)

lemma positive_dict_set: "positive_stock d \<Longrightarrow> 0 < v \<Longrightarrow> positive_stock (dict_set d k v)"
  by (induction d) auto

lemma positive_dict_del: "positive_stock d \<Longrightarrow> positive_stock (dict_del d k)"
  by (induction d) auto

lemma positive_dict_del_set: "positive_stock d \<Longrightarrow> positive_stock (dict_del (dict_set d k v) k)"
  by (induction d) (auto simp: positive_dict_del)

lemma positive_dict_get: "positive_stock d \<Longrightarrow> dict_get d k = Some v \<Longrightarrow> 0 < v"
  by (induction d) (auto split: if_splits)

lemma stock_eprint [simp]: "stock_data (eprint msg s) = stock_data s"
  by (simp add: eprint_def)

lemma stock_print [simp]: "stock_data (print msg s) = stock_data s"
  by (simp add: print_def)
lemma positive_remove: "positive_stock (stock_data s) \<Longrightarrow> positive_stock (stock_data (remove_item s item qty))"
  by (auto simp: remove_item_def Let_def positive_dict_set positive_dict_del_set
      split: option.splits)

lemma positive_add:
  "positive_stock (stock_data s) \<Longrightarrow> as_int qty \<noteq> Some 0 \<Longrightarrow>
   positive_stock (stock_data (fst (add_item s item qty logs now)))"
  by (auto simp: add_item_def positive_dict_set dest: positive_dict_get
      intro!: positive_dict_set split: option.splits)

section \<open>Facts about the printed text\<close>

lemma print_items_stdout:
  "stdout (print_items d s) = stdout s @ map (\<lambda>(item, qty). item @ '' -> '' @ show_int qty) d"
  by (induction d arbitrary: s) (auto simp: print_def)

lemma print_items_stock [simp]: "stock_data (print_items d s) = stock_data s"
  by (induction d arbitrary: s) auto

lemma print_data_stock: "stock_data (print_data s) = stock_data s"
  by (simp add: print_data_def Let_def)

lemma print_data_stdout:
  "stdout (print_data s) =
     stdout s @ [CHR 0x0A # ''--- Items Report ---''] @
     (if stock_data s = [] then [''Inventory is empty.'']
      else map (\<lambda>(item, qty). item @ '' -> '' @ show_int qty) (stock_data s)) @
     [''--------------------'' @ [CHR 0x0A]]"
  by (simp add: print_data_def Let_def print_items_stdout print_def)

lemma low_loop_filter:
  "low_loop T d acc = acc @ map fst (filter (\<lambda>(item, qty). qty < T) d)"
  by (induction d arbitrary: acc) auto

lemma digit_char_mem: "digit_char m \<in> set ''0123456789''"
  unfolding digit_char_def by (rule nth_mem) simp

lemma digit_char_no_gt: "digit_char m \<noteq> CHR ''>''"
  using digit_char_mem [of m] by auto

lemma show_nat_no_gt: "CHR ''>'' \<notin> set (show_nat n)"
proof (induction n rule: show_nat.induct)
  case (1 n)
  show ?case
  proof (cases "n < 10")
    case True
    then show ?thesis using digit_char_no_gt [of n] by (subst show_nat.simps) auto
  next
    case False
    then show ?thesis using 1 digit_char_no_gt [of "n mod 10"] by (subst show_nat.simps) auto
  qed
qed

lemma show_int_no_gt: "CHR ''>'' \<notin> set (show_int i)"
  by (simp add: show_int_def show_nat_no_gt)

lemma arrow_split:
  assumes "a @ '' -> '' @ x = b @ '' -> '' @ y" and "CHR ''>'' \<notin> set x" and "CHR ''>'' \<notin> set y"
  shows "a = b"
proof -
  let ?P = "\<lambda>c. c \<noteq> CHR ''>''"
  have r: "takeWhile ?P (rev (c @ '' -> '' @ z)) = rev z @ '' ''"
    if "CHR ''>'' \<notin> set z" for c z
  proof -
    have "takeWhile ?P (rev z @ '' >- '' @ rev c) = rev z @ takeWhile ?P ('' >- '' @ rev c)"
      by (rule takeWhile_append2) (use that in auto)
    then show ?thesis by simp
  qed
  have "takeWhile ?P (rev (a @ '' -> '' @ x)) = takeWhile ?P (rev (b @ '' -> '' @ y))"
    by (simp only: assms(1))
  then have "rev x @ '' '' = rev y @ '' ''"
    by (simp only: r [OF assms(2)] r [OF assms(3)])
  then have "x = y" by simp
  with assms(1) show ?thesis by simp
qed

lemma py_repr_quote:
  obtains q where "q = CHR 0x22 \<or> q = CHR 0x27"
    and "py_repr x = q # concat (map (repr_char q) x) @ [q]"
  by (simp add: py_repr_def Let_def split: if_splits)

lemma repr_char_printable:
  assumes "printable c" and "c \<noteq> q" and "c \<noteq> CHR 0x5C"
  shows "repr_char q c = [c]"
proof -
  have "c \<noteq> CHR 0x09" "c \<noteq> CHR 0x0A" "c \<noteq> CHR 0x0D"
    using assms(1) by (auto simp: printable_def)
  with assms show ?thesis by (simp add: repr_char_def)
qed

lemma repr_chars_printable:
  assumes "\<And>c. c \<in> set t \<Longrightarrow> printable c \<and> c \<noteq> q \<and> c \<noteq> CHR 0x5C"
  shows "concat (map (repr_char q) t) = t"
  using assms by (induction t) (simp_all add: repr_char_printable)

lemma letters_printable:
  "c \<in> set '' not in stock. Cannot remove.'' \<Longrightarrow>
     printable c \<and> c \<noteq> CHR 0x22 \<and> c \<noteq> CHR 0x27 \<and> c \<noteq> CHR 0x5C"
  by (auto simp: printable_def)

lemma repr_char_plain:
  assumes "q = CHR 0x22 \<or> q = CHR 0x27"
  shows "concat (map (repr_char q) '' not in stock. Cannot remove.'') = '' not in stock. Cannot remove.''"
  by (rule repr_chars_printable) (use assms letters_printable in blast)

lemma py_repr_not_in_stock: "sublist ''not in stock'' (pre @ py_repr (not_in_stock name))"
proof -
  obtain q where q: "q = CHR 0x22 \<or> q = CHR 0x27"
    and r: "py_repr (not_in_stock name) = q # concat (map (repr_char q) (not_in_stock name)) @ [q]"
    by (rule py_repr_quote)
  let ?head = "''Item '' @ [CHR 0x27] @ name @ [CHR 0x27]"
  have "not_in_stock name = ?head @ '' not in stock. Cannot remove.''"
    by (simp add: not_in_stock_def)
  then have "concat (map (repr_char q) (not_in_stock name)) =
      concat (map (repr_char q) ?head) @ '' not in stock. Cannot remove.''"
    by (simp only: map_append concat_append repr_char_plain [OF q])
  with r have "pre @ py_repr (not_in_stock name) =
      (pre @ q # concat (map (repr_char q) ?head) @ '' '') @ ''not in stock'' @ (''. Cannot remove.'' @ [q])"
    by simp
  then show ?thesis
    unfolding sublist_def by blast
qed

lemma printed_lines:
  "drop (length (stdout s)) (stdout (print_data s)) =
     (CHR 0x0A # ''--- Items Report ---'') #
     (if stock_data s = [] then [''Inventory is empty.'']
      else map (\<lambda>(item, qty). item @ '' -> '' @ show_int qty) (stock_data s)) @
     [''--------------------'' @ [CHR 0x0A]]"
  by (simp add: print_data_stdout)

lemma no_gt_neq: "CHR ''>'' \<in> set a \<Longrightarrow> CHR ''>'' \<notin> set b \<Longrightarrow> a \<noteq> b"
  by auto

lemma line_not_printed:
  assumes "name \<notin> fst ` set (stock_data s)"
  shows "name @ '' -> '' @ show_int q \<notin> set (drop (length (stdout s)) (stdout (print_data s)))"
proof -
  let ?l = "name @ '' -> '' @ show_int q"
  have gt: "CHR ''>'' \<in> set ?l" by simp
  have 1: "?l \<noteq> CHR 0x0A # ''--- Items Report ---''"
    by (rule no_gt_neq [OF gt]) simp
  have 2: "?l \<noteq> ''Inventory is empty.''"
    by (rule no_gt_neq [OF gt]) simp
  have 3: "?l \<noteq> ''--------------------'' @ [CHR 0x0A]"
    by (rule no_gt_neq [OF gt]) simp
  have 4: "?l \<noteq> k @ '' -> '' @ show_int w" if "(k, w) \<in> set (stock_data s)" for k w
  proof
    assume "?l = k @ '' -> '' @ show_int w"
    then have "name = k"
      by (rule arrow_split) (rule show_int_no_gt)+
    with that assms show False by force
  qed
  have 5: "?l \<notin> set (map (\<lambda>(item, qty). item @ '' -> '' @ show_int qty) (stock_data s))"
    using 4 by (auto simp del: append_eq_append_conv)
  show ?thesis
    unfolding printed_lines using 1 2 3 5 by (simp del: append_eq_append_conv split: if_splits)
qed

section \<open>Facts about JSON text\<close>

lemma hex_val_hex_char: "\<forall>d \<in> set [0..<16]. hex_val (hex_char d) = Some d"
  by code_simp

lemma hex_val_hex_char': "d < 16 \<Longrightarrow> hex_val (hex_char d) = Some d"
  using hex_val_hex_char by simp

lemma hex_val_zero: "hex_val (CHR ''0'') = Some 0"
  by (simp add: hex_val_def)

lemma decode_escape:
  "decode_uXXXX (CHR ''0'') (CHR ''0'') (hex_char (of_char c div 16)) (hex_char (of_char c mod 16))
     = Some (of_char c)"
proof -
  have "(of_char c :: nat) < 256" by simp
  then have "(of_char c :: nat) div 16 < 16" by arith
  then show ?thesis
    by (simp add: decode_uXXXX_def hex_val_zero hex_val_hex_char')
qed

lemma scanstring_escape_char:
  "scanstring (json_escape_char c @ tail) = push c (scanstring tail)"
proof -
  consider "c = CHR 0x22" | "c = CHR 0x5C" | "c = CHR 0x0A" | "c = CHR 0x0D" | "c = CHR 0x09"
    | "c = CHR 0x08" | "c = CHR 0x0C"
    | "c \<noteq> CHR 0x22" "c \<noteq> CHR 0x5C" "c \<noteq> CHR 0x0A" "c \<noteq> CHR 0x0D" "c \<noteq> CHR 0x09"
      "c \<noteq> CHR 0x08" "c \<noteq> CHR 0x0C" "32 \<le> (of_char c :: nat) \<and> (of_char c :: nat) < 127"
    | "c \<noteq> CHR 0x22" "c \<noteq> CHR 0x5C" "c \<noteq> CHR 0x0A" "c \<noteq> CHR 0x0D" "c \<noteq> CHR 0x09"
      "c \<noteq> CHR 0x08" "c \<noteq> CHR 0x0C" "\<not> (32 \<le> (of_char c :: nat) \<and> (of_char c :: nat) < 127)"
    by blast
  then show ?thesis
  proof cases
    case 8
    then show ?thesis by (simp add: json_escape_char_def)
  next
    case 9
    then have "json_escape_char c = [CHR 0x5C, CHR ''u'', CHR ''0'', CHR ''0'',
            hex_char (of_char c div 16), hex_char (of_char c mod 16)]"
      by (simp add: json_escape_char_def)
    then show ?thesis
      by (simp add: decode_escape)
  qed (simp_all add: json_escape_char_def backslash_def)
qed

lemma scanstring_escaped:
  "scanstring (concat (map json_escape_char s) @ CHR 0x22 # rest) = Got (Some s, rest)"
  by (induction s) (simp_all add: scanstring_escape_char del: scanstring.simps, simp)

lemma digit_char_props: "\<forall>d \<in> set [0..<10]. is_digit (digit_char d) \<and> digit_val (digit_char d) = d
    \<and> (d \<noteq> 0 \<longrightarrow> digit_char d \<noteq> CHR ''0'')"
  by code_simp

lemma digit_char_digit: "is_digit (digit_char d)"
proof -
  have "digit_char d = digit_char (d mod 10)" by (simp add: digit_char_def)
  moreover have "d mod 10 \<in> set [0..<10]" by simp
  ultimately show ?thesis using digit_char_props by metis
qed

lemma digit_val_digit_char: "d < 10 \<Longrightarrow> digit_val (digit_char d) = d"
  using digit_char_props by simp

lemma digit_char_nonzero: "0 < d \<Longrightarrow> d < 10 \<Longrightarrow> digit_char d \<noteq> CHR ''0''"
  using digit_char_props by simp

lemma show_nat_digits: "c \<in> set (show_nat n) \<Longrightarrow> is_digit c"
proof (induction n rule: show_nat.induct)
  case (1 n)
  show ?case
  proof (cases "n < 10")
    case True
    with 1(2) show ?thesis by (simp add: show_nat.simps [of n] digit_char_digit)
  next
    case False
    with 1 show ?thesis by (auto simp: show_nat.simps [of n] digit_char_digit)
  qed
qed

lemma nat_of_digits_snoc: "nat_of_digits acc (xs @ [c]) = 10 * nat_of_digits acc xs + digit_val c"
  by (induction xs arbitrary: acc) simp_all

lemma nat_of_digits_show_nat: "nat_of_digits 0 (show_nat n) = n"
proof (induction n rule: show_nat.induct)
  case (1 n)
  show ?case
  proof (cases "n < 10")
    case True
    then show ?thesis by (simp add: show_nat.simps [of n] digit_val_digit_char)
  next
    case False
    with 1 show ?thesis
      by (simp add: show_nat.simps [of n] nat_of_digits_snoc digit_val_digit_char)
  qed
qed

lemma show_nat_head:
  "\<exists>c cs. show_nat n = c # cs \<and> is_digit c \<and> (0 < n \<longrightarrow> c \<noteq> CHR ''0'')"
proof (induction n rule: show_nat.induct)
  case (1 n)
  show ?case
  proof (cases "n < 10")
    case True
    then show ?thesis
      by (simp add: show_nat.simps [of n] digit_char_digit digit_char_nonzero)
  next
    case False
    then have "0 < n div 10" by simp
    with 1 [OF False] obtain c cs where "show_nat (n div 10) = c # cs" "is_digit c" "c \<noteq> CHR ''0''"
      by blast
    with False show ?thesis by (simp add: show_nat.simps [of n])
  qed
qed

lemma show_nat_zero: "show_nat 0 = ''0''"
  by (simp add: show_nat.simps [of 0] digit_char_def)

lemma not_digit_minus: "\<not> is_digit (CHR ''-'')"
  by (simp add: is_digit_def)

lemma span_digits:
  "(\<And>c. c \<in> set ds \<Longrightarrow> P c) \<Longrightarrow> \<not> P x \<Longrightarrow>
   takeWhile P (ds @ x # r) = ds \<and> dropWhile P (ds @ x # r) = x # r"
  by (induction ds) auto

lemma ends_number_head: "ends_number rest \<Longrightarrow> \<exists>x r. rest = x # r \<and> \<not> is_digit x"
  unfolding ends_number_def by (elim exE disjE) (simp_all add: is_digit_def)

lemma int_part_show_nat:
  assumes "ends_number rest"
  shows "int_part (show_nat n @ rest) = Some (n, rest)"
proof -
  from ends_number_head [OF assms] obtain x r where rest: "rest = x # r" and x: "\<not> is_digit x"
    by blast
  have span: "takeWhile is_digit (show_nat n @ rest) = show_nat n
      \<and> dropWhile is_digit (show_nat n @ rest) = rest"
    unfolding rest by (rule span_digits) (rule show_nat_digits, assumption, rule x)
  show ?thesis
  proof (cases "n = 0")
    case True
    then show ?thesis by (simp add: show_nat_zero int_part_def)
  next
    case False
    then obtain c cs where s: "show_nat n = c # cs" and c: "is_digit c" "c \<noteq> CHR ''0''"
      using show_nat_head [of n] by auto
    have "int_part ((c # cs) @ rest) =
        Some (nat_of_digits 0 (takeWhile is_digit ((c # cs) @ rest)), dropWhile is_digit ((c # cs) @ rest))"
      using c by (simp add: int_part_def)
    then have "int_part (show_nat n @ rest) =
        Some (nat_of_digits 0 (takeWhile is_digit (show_nat n @ rest)), dropWhile is_digit (show_nat n @ rest))"
      by (simp only: s)
    then show ?thesis by (simp only: span nat_of_digits_show_nat)
  qed
qed

lemma number_end_plain: "ends_number rest \<Longrightarrow> number_end i rest = (JInt i, rest)"
  unfolding ends_number_def
  by (elim exE disjE) (simp_all add: number_end_def after_frac_def after_exp_def split: list.splits)

lemma match_number_show_int:
  assumes "ends_number rest"
  shows "match_number (show_int v @ rest) = Got (JInt v, rest)"
proof (cases "v < 0")
  case True
  then show ?thesis
    by (simp add: match_number_def show_int_def int_part_show_nat [OF assms] number_end_plain [OF assms])
next
  case False
  obtain c cs where s: "show_nat (nat v) = c # cs" and c: "is_digit c"
    using show_nat_head [of "nat v"] by auto
  from c have "c \<noteq> CHR ''-''" using not_digit_minus by auto
  moreover have "int_part (c # cs @ rest) = Some (nat v, rest)"
    using int_part_show_nat [OF assms, of "nat v"] by (simp add: s)
  ultimately show ?thesis
    using False by (simp add: match_number_def show_int_def s number_end_plain [OF assms])
qed

lemma show_int_head:
  "\<exists>c cs. show_int v = c # cs \<and> (is_digit c \<or> (c = CHR ''-'' \<and> (\<exists>d ds. cs = d # ds \<and> is_digit d)))"
  using show_nat_head [of "nat v"] show_nat_head [of "nat (- v)"] by (auto simp: show_int_def)

lemma take_neq: "c \<noteq> d \<Longrightarrow> take n (c # xs) \<noteq> d # ds"
  by (cases n) auto

lemma take_neq2: "d \<noteq> e \<Longrightarrow> take (Suc (Suc n)) (c # d # xs) \<noteq> c' # e # es"
  by simp

lemma scan_scalar_show_int:
  assumes "ends_number rest"
  shows "scan_scalar (show_int v @ rest) = Got (JInt v, rest)"
proof -
  from show_int_head [of v] obtain c cs where s: "show_int v = c # cs"
    and c: "is_digit c \<or> (c = CHR ''-'' \<and> (\<exists>d ds. cs = d # ds \<and> is_digit d))"
    by (elim exE conjE) (rule that)
  let ?t = "show_int v @ rest"
  have t: "?t = c # cs @ rest" by (simp add: s)
  have c': "c \<noteq> CHR ''n''" "c \<noteq> CHR ''t''" "c \<noteq> CHR ''f''" "c \<noteq> CHR ''N''" "c \<noteq> CHR ''I''"
    using c by (auto simp: is_digit_def)
  have n1: "take 4 ?t \<noteq> ''null''" unfolding t by (rule take_neq) (rule c')
  have n2: "take 4 ?t \<noteq> ''true''" unfolding t by (rule take_neq) (rule c')
  have n3: "take 5 ?t \<noteq> ''false''" unfolding t by (rule take_neq) (rule c')
  have n4: "take 3 ?t \<noteq> ''NaN''" unfolding t by (rule take_neq) (rule c')
  have n5: "take 8 ?t \<noteq> ''Infinity''" unfolding t by (rule take_neq) (rule c')
  have n6: "take 9 ?t \<noteq> ''-Infinity''"
  proof (cases "is_digit c")
    case True
    then have "c \<noteq> CHR ''-''" by (auto simp: is_digit_def)
    then show ?thesis unfolding t by (rule take_neq)
  next
    case False
    with c obtain d ds where cs: "cs = d # ds" and d: "is_digit d" by blast
    from d have "d \<noteq> CHR ''I''" by (auto simp: is_digit_def)
    then have "take (Suc (Suc 7)) (c # d # ds @ rest) \<noteq> CHR ''-'' # CHR ''I'' # ''nfinity''"
      by (rule take_neq2)
    then show ?thesis unfolding t cs by (simp add: eval_nat_numeral)
  qed
  show ?thesis
    by (simp only: scan_scalar_def n1 n2 n3 n4 n5 n6 if_False match_number_show_int [OF assms])
qed

lemma show_int_start:
  "\<exists>c cs. show_int v = c # cs \<and> \<not> is_ws c \<and> c \<noteq> CHR 0x22 \<and> c \<noteq> CHR ''{'' \<and> c \<noteq> CHR ''[''"
  using show_int_head [of v] by (auto simp: is_digit_def is_ws_def)

lemma skip_ws_show_int: "skip_ws (show_int v @ rest) = show_int v @ rest"
  using show_int_start [of v] by (auto simp: skip_ws_def)

lemma decode_Value_show_int:
  assumes "ends_number rest"
  shows "decode Value st key pairs (show_int v @ rest) = decode (After (JInt v)) st key pairs rest"
proof -
  obtain c cs where s: "show_int v = c # cs" and c: "c \<noteq> CHR 0x22" "c \<noteq> CHR ''{''" "c \<noteq> CHR ''[''"
    using show_int_start by blast
  have "scan_scalar (c # cs @ rest) = Got (JInt v, rest)"
    using scan_scalar_show_int [OF assms, of v] by (simp add: s)
  with c show ?thesis
    by (subst decode.simps(1)) (simp add: s)
qed

lemma ends_number_comma: "ends_number (CHR '','' # r)"
  by (simp add: ends_number_def)

lemma ends_number_newline: "ends_number (CHR 0x0A # r)"
  by (simp add: ends_number_def)

lemma skip_ws_plain: "\<not> is_ws c \<Longrightarrow> skip_ws (c # r) = c # r"
  by (simp add: skip_ws_def)

lemma skip_ws_indent:
  "skip_ws (CHR 0x0A # CHR '' '' # CHR '' '' # CHR '' '' # CHR '' '' # CHR 0x22 # r) = CHR 0x22 # r"
  by (simp add: skip_ws_def is_ws_def)

lemma read_key_dumped:
  "read_key (concat (map json_escape_char k) @ CHR 0x22 # CHR '':'' # CHR '' '' # entry_text v d rest)
     = Got (Some k, entry_text v d rest)"
proof -
  have "skip_ws (CHR '' '' # entry_text v d rest) = entry_text v d rest"
    using skip_ws_show_int [of v] by (simp add: skip_ws_def is_ws_def entry_text_def)
  then show ?thesis
    by (simp add: read_key_def scanstring_escaped skip_ws_plain is_ws_def del: scanstring.simps)
qed

lemma entry_text_next:
  "entry_text v ((k', v') # d) rest =
     show_int v @ CHR '','' # CHR 0x0A # ''    '' @ CHR 0x22 #
       concat (map json_escape_char k') @ CHR 0x22 # '': '' @ entry_text v' d rest"
  by (simp add: entry_text_def json_string_def)

lemma decode_entry:
  "decode Value [In_object] (Some k) pairs (entry_text v d rest)
     = Got (Root_object (pairs @ map (\<lambda>(k, v). (Some k, JInt v)) ((k, v) # d)), rest)"
proof (induction d arbitrary: k v pairs)
  case Nil
  have "decode Value [In_object] (Some k) pairs (entry_text v [] rest)
      = decode (After (JInt v)) [In_object] (Some k) pairs (CHR 0x0A # ''}'' @ rest)"
    by (simp add: entry_text_def decode_Value_show_int [OF ends_number_newline])
  also have "\<dots> = Got (Root_object (pairs @ [(Some k, JInt v)]), rest)"
    by (subst decode.simps(4)) (simp add: skip_ws_def is_ws_def)
  finally show ?case by simp
next
  case (Cons p d)
  obtain k' v' where p: "p = (k', v')" by (cases p)
  let ?tail = "concat (map json_escape_char k') @ CHR 0x22 # '': '' @ entry_text v' d rest"
  have "decode Value [In_object] (Some k) pairs (entry_text v ((k', v') # d) rest)
      = decode (After (JInt v)) [In_object] (Some k) pairs (CHR '','' # CHR 0x0A # ''    '' @ CHR 0x22 # ?tail)"
    unfolding entry_text_next by (rule decode_Value_show_int [OF ends_number_comma])
  also have "\<dots> = decode Value [In_object] (Some k') (pairs @ [(Some k, JInt v)]) (entry_text v' d rest)"
    by (subst decode.simps(4))
      (simp add: skip_ws_plain is_ws_def skip_ws_indent read_key_dumped)
  also have "\<dots> = Got (Root_object ((pairs @ [(Some k, JInt v)]) @ map (\<lambda>(k, v). (Some k, JInt v)) ((k', v') # d)), rest)"
    by (rule Cons.IH)
  finally show ?case by (simp add: p)
qed

lemma utf8_valid_ascii: "(\<And>c. c \<in> set s \<Longrightarrow> (of_char c :: nat) < 128) \<Longrightarrow> utf8_valid s"
  by (induction s) simp_all

lemma hex_char_ascii: "\<forall>d \<in> set [0..<16]. (of_char (hex_char d) :: nat) < 128"
  by code_simp

lemma hex_char_ascii': "(of_char (hex_char d) :: nat) < 128"
proof -
  have "hex_char d = hex_char (d mod 16)" by (simp add: hex_char_def)
  moreover have "d mod 16 \<in> set [0..<16]" by simp
  ultimately show ?thesis using hex_char_ascii by metis
qed

lemma json_escape_char_ascii: "c' \<in> set (json_escape_char c) \<Longrightarrow> (of_char c' :: nat) < 128"
  using hex_char_ascii' [of "of_char c div 16"] hex_char_ascii' [of "of_char c mod 16"]
  by (auto simp: json_escape_char_def split: if_splits)

lemma json_string_ascii: "c \<in> set (json_string s) \<Longrightarrow> (of_char c :: nat) < 128"
  by (auto simp: json_string_def dest: json_escape_char_ascii)

lemma show_nat_ascii: "c \<in> set (show_nat n) \<Longrightarrow> (of_char c :: nat) < 128"
  by (drule show_nat_digits) (simp add: is_digit_def)

lemma show_int_ascii: "c \<in> set (show_int v) \<Longrightarrow> (of_char c :: nat) < 128"
  by (auto simp: show_int_def dest: show_nat_ascii split: if_splits)

lemma iterencode_dict_ascii: "c \<in> set (iterencode_dict first d) \<Longrightarrow> (of_char c :: nat) < 128"
proof (induction d arbitrary: first)
  case Nil
  then show ?case by simp
next
  case (Cons p d)
  obtain k v where p: "p = (k, v)" by (cases p)
  from Cons.prems consider "c \<in> set (if first then [] else CHR '','' # CHR 0x0A # ''    '')"
    | "c \<in> set (json_string k)" | "c \<in> set '': ''" | "c \<in> set (show_int v)"
    | "c \<in> set (iterencode_dict False d)"
    by (auto simp: p)
  then show ?case
  proof cases
    case 1
    then show ?thesis by (auto split: if_splits)
  next
    case 2
    then show ?thesis by (rule json_string_ascii)
  next
    case 3
    then show ?thesis by auto
  next
    case 4
    then show ?thesis by (rule show_int_ascii)
  next
    case 5
    then show ?thesis by (rule Cons.IH)
  qed
qed

lemma json_dumps_ascii: "c \<in> set (json_dumps d) \<Longrightarrow> (of_char c :: nat) < 128"
  by (auto simp: json_dumps_def dest: iterencode_dict_ascii split: if_splits)

lemma utf8_valid_dumps: "utf8_valid (json_dumps d)"
  by (rule utf8_valid_ascii) (rule json_dumps_ascii)

lemma pairs_set_new: "k \<notin> fst ` set d \<Longrightarrow> pairs_set d k v = d @ [(k, v)]"
  by (induction d) auto

lemma dict_of_pairs_distinct:
  "distinct (map fst acc @ map fst d) \<Longrightarrow>
   dict_of_pairs acc (map (\<lambda>(k, v). (Some k, JInt v)) d) = Some (acc @ map (\<lambda>(k, v). (k, JInt v)) d)"
proof (induction d arbitrary: acc)
  case Nil
  then show ?case by simp
next
  case (Cons p d)
  obtain k v where p: "p = (k, v)" by (cases p)
  from Cons.prems have new: "k \<notin> fst ` set acc"
    and rest: "distinct (map fst (acc @ [(k, JInt v)]) @ map fst d)"
    by (auto simp: p)
  show ?case
    using Cons.IH [OF rest] by (simp add: p pairs_set_new [OF new])
qed

lemma stock_of_ints: "stock_of (map (\<lambda>(k, v). (k, JInt v)) d) = Some d"
  by (induction d) auto

lemma json_dumps_nonempty:
  "json_dumps ((k, v) # d) =
     CHR ''{'' # CHR 0x0A # CHR '' '' # CHR '' '' # CHR '' '' # CHR '' '' # CHR 0x22 #
     concat (map json_escape_char k) @ CHR 0x22 # CHR '':'' # CHR '' '' # entry_text v d []"
  by (simp add: json_dumps_def entry_text_def json_string_def)

lemma decode_dumps:
  "decode Value [] None [] (json_dumps d) = Got (Root_object (map (\<lambda>(k, v). (Some k, JInt v)) d), [])"
proof (cases d)
  case Nil
  then show ?thesis
    by (subst decode.simps(1)) (simp add: json_dumps_def skip_ws_def is_ws_def)
next
  case (Cons p d')
  obtain k v where p: "p = (k, v)" by (cases p)
  have "decode Value [] None [] (json_dumps ((k, v) # d'))
      = decode Value [In_object] (Some k) [] (entry_text v d' [])"
    unfolding json_dumps_nonempty
    by (subst decode.simps(1)) (simp add: skip_ws_indent read_key_dumped)
  also have "\<dots> = Got (Root_object ([] @ map (\<lambda>(k, v). (Some k, JInt v)) ((k, v) # d')), [])"
    by (rule decode_entry)
  finally show ?thesis by (simp add: Cons p)
qed

lemma skip_ws_dumps: "skip_ws (json_dumps d) = json_dumps d"
  by (cases d) (auto simp: json_dumps_def skip_ws_def is_ws_def)

lemma skip_ws_Nil: "skip_ws [] = []"
  by (simp add: skip_ws_def)

lemma json_loads_dumps:
  assumes "distinct (map fst d)"
  shows "json_loads (json_dumps d) = Decoded d"
proof -
  have "dict_of_pairs [] (map (\<lambda>(k, v). (Some k, JInt v)) d) = Some (map (\<lambda>(k, v). (k, JInt v)) d)"
    using dict_of_pairs_distinct [of "[]" d] assms by simp
  then show ?thesis
    by (simp add: json_loads_def utf8_valid_dumps skip_ws_dumps decode_dumps stock_of_ints skip_ws_Nil)
qed

lemma zero_file_decoded: "json_loads zero_file = Decoded [(''x'', - 3), (''y'', 0)]"
  by code_simp






section \<open>Adding\<close>

text \<open>
  C1. For every state, an item that is a non-empty string and a quantity that is an
  integer (a \<open>bool\<close> counts as 0 or 1) and not negative: after \<open>add_item\<close>, \<open>get_qty\<close> of the
  item is its value before the call plus the quantity, and an item that was absent has an
  entry with the quantity. A log list that was supplied gets the record
  \<open><timestamp>: Added <qty> of <item>\<close> at its end, and nothing is reported.
\<close>

theorem add_item_increases:
  assumes "as_str item = Some name" and "name \<noteq> []" and "as_int qty = Some n" and "0 \<le> n"
  shows "get_qty (fst (add_item s item qty logs now)) name = get_qty s name + n
       \<and> (dict_get (stock_data s) name = None \<longrightarrow>
            dict_get (stock_data (fst (add_item s item qty logs now))) name = Some n)
       \<and> snd (add_item s item qty (Some l) now) = Some (l @ [now @ '': Added '' @ py_str qty @ '' of '' @ name])
       \<and> snd (add_item s item qty None now) = None
       \<and> stderr (fst (add_item s item qty logs now)) = stderr s"
  using assms by (simp add: add_item_def get_qty_def dict_get_set)

theorem add_item_increases_witness:
  "as_str (PStr ''cherry'') = Some ''cherry'' \<and> ''cherry'' \<noteq> [] \<and> as_int (PInt 4) = Some 4 \<and> (0::int) \<le> 4
   \<and> dict_get (stock_data stocked) ''cherry'' = None
   \<and> get_qty (fst (add_item stocked (PStr ''cherry'') (PInt 4) None ''t'')) ''cherry'' = 4
   \<and> dict_get (stock_data (fst (add_item stocked (PStr ''cherry'') (PInt 4) None ''t''))) ''cherry'' = Some 4
   \<and> snd (add_item stocked (PStr ''cherry'') (PInt 4) (Some []) ''2025-01-01 10:00:00.000000'')
        = Some [''2025-01-01 10:00:00.000000: Added 4 of cherry'']"
  using add_item_increases [of "PStr ''cherry''" "''cherry''" "PInt 4" 4 stocked None "''t''"]
    add_item_increases [of "PStr ''cherry''" "''cherry''" "PInt 4" 4 stocked None "''2025-01-01 10:00:00.000000''" "[]"]
  by (simp add: stocked_def start_def get_qty_def show_int_def show_nat.simps digit_char_def)

section \<open>Removing\<close>

text \<open>
  C4. For every state and valid item and quantity, when the item is not in the stock,
  \<open>remove_item\<close> changes nothing but the error channel, where it puts one message, which
  starts with \<open>Error removing item:\<close> and contains \<open>not in stock\<close>.
\<close>

theorem remove_absent_item:
  assumes "as_str item = Some name" and "name \<noteq> []" and "as_int qty = Some n" and "0 \<le> n"
    and "dict_get (stock_data s) name = None"
  shows "\<exists>msg. remove_item s item qty = s\<lparr>stderr := stderr s @ [msg]\<rparr>
           \<and> prefix ''Error removing item: '' msg
           \<and> sublist ''not in stock'' msg"
proof -
  let ?msg = "''Error removing item: '' @ py_repr (not_in_stock name)"
  have "remove_item s item qty = s\<lparr>stderr := stderr s @ [?msg]\<rparr>"
    using assms by (simp add: remove_item_def eprint_def)
  moreover have "prefix ''Error removing item: '' ?msg"
    by (rule prefixI) simp
  moreover have "sublist ''not in stock'' ?msg"
    by (rule py_repr_not_in_stock)
  ultimately show ?thesis by blast
qed

theorem remove_absent_item_witness:
  "as_str (PStr ''orange'') = Some ''orange'' \<and> ''orange'' \<noteq> [] \<and> as_int (PInt 1) = Some 1 \<and> (0::int) \<le> 1
   \<and> dict_get (stock_data stocked) ''orange'' = None
   \<and> (\<exists>msg. remove_item stocked (PStr ''orange'') (PInt 1) = stocked\<lparr>stderr := stderr stocked @ [msg]\<rparr>
           \<and> prefix ''Error removing item: '' msg \<and> sublist ''not in stock'' msg)"
  using remove_absent_item [of "PStr ''orange''" "''orange''" "PInt 1" 1 stocked]
  by (simp add: stocked_def start_def)

text \<open>
  C5. For every state and valid item and quantity, when the item is in the stock and its
  quantity minus the quantity removed is zero or less, the entry is deleted: the dict has
  no entry for the item, \<open>get_qty\<close> gives 0, and no line that \<open>print_data\<close> prints then is a
  line for the item. Nothing is reported.
\<close>

theorem remove_deletes_entry:
  assumes "as_str item = Some name" and "name \<noteq> []" and "as_int qty = Some n" and "0 \<le> n"
    and "dict_get (stock_data s) name = Some v" and "v - n \<le> 0"
  shows "dict_get (stock_data (remove_item s item qty)) name = None
       \<and> get_qty (remove_item s item qty) name = 0
       \<and> stderr (remove_item s item qty) = stderr s
       \<and> (\<forall>q. name @ '' -> '' @ show_int q
              \<notin> set (drop (length (stdout (remove_item s item qty)))
                         (stdout (print_data (remove_item s item qty)))))"
proof -
  let ?s' = "remove_item s item qty"
  have s': "?s' = s\<lparr>stock_data := dict_del (dict_set (stock_data s) name (v - n)) name\<rparr>"
    using assms by (simp add: remove_item_def Let_def)
  have gone: "dict_get (stock_data ?s') name = None"
    by (simp add: s' dict_get_del)
  then have absent: "name \<notin> fst ` set (stock_data ?s')"
    by (simp add: dict_get_None_iff)
  have "get_qty ?s' name = 0"
    using gone by (simp add: get_qty_def)
  moreover have "stderr ?s' = stderr s"
    by (simp add: s')
  ultimately show ?thesis
    using gone line_not_printed [OF absent] by blast
qed

theorem remove_deletes_entry_witness:
  "as_str (PStr ''apple'') = Some ''apple'' \<and> ''apple'' \<noteq> [] \<and> as_int (PInt 7) = Some 7 \<and> (0::int) \<le> 7
   \<and> dict_get (stock_data stocked) ''apple'' = Some 7 \<and> (7::int) - 7 \<le> 0
   \<and> stock_data (remove_item stocked (PStr ''apple'') (PInt 7)) = [(''banana'', 15)]
   \<and> get_qty (remove_item stocked (PStr ''apple'') (PInt 7)) ''apple'' = 0
   \<and> (\<forall>q. ''apple'' @ '' -> '' @ show_int q
          \<notin> set (drop (length (stdout (remove_item stocked (PStr ''apple'') (PInt 7))))
                     (stdout (print_data (remove_item stocked (PStr ''apple'') (PInt 7))))))"
  using remove_deletes_entry [of "PStr ''apple''" "''apple''" "PInt 7" 7 stocked 7]
  by (simp add: stocked_def start_def remove_item_def)

section \<open>Rejected input\<close>

text \<open>
  C7. For every state, when the item is invalid (empty or not a \<open>str\<close>) or the quantity
  is invalid (negative or not an \<open>int\<close>), \<open>add_item\<close> and \<open>remove_item\<close> put one message
  that starts with \<open>Error:\<close> on the error channel and change nothing else: the stock, the
  caller's log and the standard output are as before.
\<close>

theorem invalid_input_rejected:
  assumes "invalid_item item \<or> invalid_qty qty"
  shows "\<exists>msg. prefix ''Error:'' msg
           \<and> add_item s item qty logs now = (s\<lparr>stderr := stderr s @ [msg]\<rparr>, logs)
           \<and> remove_item s item qty = s\<lparr>stderr := stderr s @ [msg]\<rparr>"
proof (cases "invalid_item item")
  case True
  then have "add_item s item qty logs now = (s\<lparr>stderr := stderr s @ [item_error item]\<rparr>, logs)"
    and "remove_item s item qty = s\<lparr>stderr := stderr s @ [item_error item]\<rparr>"
    by (simp_all add: invalid_item_def add_item_def remove_item_def eprint_def split: option.splits)
  moreover have "prefix ''Error:'' (item_error item)"
    by (simp add: item_error_def)
  ultimately show ?thesis by blast
next
  case False
  with assms have q: "invalid_qty qty" by simp
  from False obtain name where "as_str item = Some name" and "name \<noteq> []"
    by (auto simp: invalid_item_def split: option.splits)
  with q have "add_item s item qty logs now = (s\<lparr>stderr := stderr s @ [qty_error qty]\<rparr>, logs)"
    and "remove_item s item qty = s\<lparr>stderr := stderr s @ [qty_error qty]\<rparr>"
    by (simp_all add: invalid_qty_def add_item_def remove_item_def eprint_def split: option.splits)
  moreover have "prefix ''Error:'' (qty_error qty)"
    by (simp add: qty_error_def)
  ultimately show ?thesis by blast
qed

theorem invalid_input_rejected_witness:
  "(invalid_item (PStr ''banana'') \<or> invalid_qty (PInt (- 2)))
   \<and> (\<exists>msg. prefix ''Error:'' msg
         \<and> add_item stocked (PStr ''banana'') (PInt (- 2)) (Some []) ''t'' = (stocked\<lparr>stderr := stderr stocked @ [msg]\<rparr>, Some [])
         \<and> remove_item stocked (PStr ''banana'') (PInt (- 2)) = stocked\<lparr>stderr := stderr stocked @ [msg]\<rparr>)"
  using invalid_input_rejected [of "PStr ''banana''" "PInt (- 2)" stocked "Some []" "''t''"]
  by (simp add: invalid_qty_def)

section \<open>Low stock\<close>

text \<open>
  C6, as amended. For every state and every threshold, \<open>check_low_items\<close> returns the
  items whose quantity is strictly less than the threshold, in the order of the dict, and so
  the items of the specification's wording; for a threshold greater than every quantity it
  returns all items; for the threshold 0 it returns the empty list when no quantity in
  the stock is negative.
\<close>

theorem check_low_items_spec:
  "check_low_items s T = low_stock_spec (stock_data s) T
   \<and> set (check_low_items s T) = {item. \<exists>qty. (item, qty) \<in> set (stock_data s) \<and> qty < T}
   \<and> ((\<forall>(item, qty) \<in> set (stock_data s). 0 \<le> qty) \<longrightarrow> check_low_items s 0 = [])
   \<and> ((\<forall>(item, qty) \<in> set (stock_data s). qty < T) \<longrightarrow> check_low_items s T = map fst (stock_data s))"
proof -
  have eq: "check_low_items s T = map fst (filter (\<lambda>(item, qty). qty < T) (stock_data s))" for T
    by (simp add: check_low_items_def low_loop_filter)
  have "set (check_low_items s T) = {item. \<exists>qty. (item, qty) \<in> set (stock_data s) \<and> qty < T}"
    unfolding eq by force
  moreover have "check_low_items s 0 = []" if "\<forall>(item, qty) \<in> set (stock_data s). 0 \<le> qty"
    unfolding eq using that by (auto simp: filter_empty_conv)
  moreover have "check_low_items s T = map fst (stock_data s)"
    if "\<forall>(item, qty) \<in> set (stock_data s). qty < T"
  proof -
    have "filter (\<lambda>(item, qty). qty < T) (stock_data s) = stock_data s"
      using that by (auto simp: filter_id_conv)
    then show ?thesis unfolding eq by simp
  qed
  ultimately show ?thesis
    using eq [of T] by (simp add: low_stock_spec_def)
qed

theorem check_low_items_spec_witness:
  "list_all (\<lambda>(item, qty). 0 \<le> qty) (stock_data stocked)
   \<and> list_all (\<lambda>(item, qty). qty < 20) (stock_data stocked)
   \<and> check_low_items stocked 10 = [''apple'']
   \<and> check_low_items stocked 0 = []
   \<and> check_low_items stocked 20 = [''apple'', ''banana'']"
  using check_low_items_spec [of stocked 20] check_low_items_spec [of stocked 10]
  by (simp add: stocked_def start_def low_stock_spec_def)

text \<open>
  With a negative quantity in the stock, which \<open>load_data\<close> takes from a file as it is,
  the threshold 0 does not give the empty list.
\<close>

theorem check_low_items_zero_counterexample:
  "load_data negative_file ''inventory.json'' = Returns (negative_file\<lparr>stock_data := [(''x'', - 3), (''y'', 0)]\<rparr>)
   \<and> check_low_items (negative_file\<lparr>stock_data := [(''x'', - 3), (''y'', 0)]\<rparr>) 0 = [''x'']"
  using zero_file_decoded
  by (simp add: load_data_def negative_file_def check_low_items_def)

section \<open>Saving and loading\<close>

text \<open>
  C3. For every state whose file can be written: after \<open>save_data\<close>, whatever stock \<open>d'\<close>
  the inventory holds when \<open>load_data\<close> is called on the same path, \<open>load_data\<close> returns
  without a message and the stock after it is the stock that was saved, read back from
  the file. \<open>save_data\<close> itself leaves the stock as it is. The keys of a dict are distinct.
\<close>

theorem save_load_round_trip:
  assumes "writes s file = Writes" and "distinct (map fst (stock_data s))"
  shows "load_data ((save_data s file)\<lparr>stock_data := d'\<rparr>) file
           = Returns ((save_data s file)\<lparr>stock_data := stock_data s\<rparr>)
       \<and> stock_data (save_data s file) = stock_data s"
  using assms by (simp add: load_data_def save_data_def json_loads_dumps)

theorem save_load_round_trip_witness:
  "writes stocked ''inventory_clean.json'' = Writes \<and> distinct (map fst (stock_data stocked))
   \<and> load_data ((save_data stocked ''inventory_clean.json'')\<lparr>stock_data := [(''pear'', 1)]\<rparr>) ''inventory_clean.json''
        = Returns ((save_data stocked ''inventory_clean.json'')\<lparr>stock_data := [(''apple'', 7), (''banana'', 15)]\<rparr>)
   \<and> stock_data (save_data stocked ''inventory_clean.json'') = [(''apple'', 7), (''banana'', 15)]"
  using save_load_round_trip [of stocked "''inventory_clean.json''" "[(''pear'', 1)]"]
  by (simp add: stocked_def start_def)




text \<open>
  C9, as amended. For every state, \<open>save_data\<close> returns with the stock unchanged; when
  writing the file fails, one message is put on the error channel, which is
  \<open>Error saving data to '<file>': \<close> followed by the text of the error; when it succeeds,
  no message is put.
\<close>

theorem save_failure_reported:
  "stock_data (save_data s file) = stock_data s
   \<and> (writes s file \<noteq> Writes \<longrightarrow>
        (\<exists>e. stderr (save_data s file) = stderr s @ [''Error saving data to '' @ [CHR 0x27] @ file @ [CHR 0x27] @ '': '' @ e]))
   \<and> (writes s file = Writes \<longrightarrow> stderr (save_data s file) = stderr s)"
  by (cases "writes s file") (simp_all add: save_data_def eprint_def save_error_def)

theorem save_failure_reported_witness:
  "writes denied ''inventory.json'' \<noteq> Writes
   \<and> stock_data (save_data denied ''inventory.json'') = stock_data denied
   \<and> (\<exists>e. stderr (save_data denied ''inventory.json'') =
          stderr denied @ [''Error saving data to '' @ [CHR 0x27] @ ''inventory.json'' @ [CHR 0x27] @ '': '' @ e])
   \<and> writes stocked ''inventory.json'' = Writes
   \<and> stderr (save_data stocked ''inventory.json'') = stderr stocked"
  using save_failure_reported [of denied "''inventory.json''"] save_failure_reported [of stocked "''inventory.json''"]
  by (simp add: denied_def stocked_def start_def)

text \<open>The message of a failed save does not start with \<open>Warning:\<close>.\<close>

theorem save_warning_counterexample:
  "stderr (save_data denied ''inventory.json'') =
     [''Error saving data to 'inventory.json': [Errno 13] Permission denied: 'inventory.json'' @ [CHR 0x27]]
   \<and> \<not> prefix ''Warning:'' (last (stderr (save_data denied ''inventory.json'')))"
  by (simp add: save_data_def denied_def stocked_def start_def eprint_def save_error_def)

text \<open>
  C10. For every state, when the file holds a text that \<open>json.load\<close> decodes to a dict
  of integers, \<open>load_data\<close> returns with that dict as the stock and nothing else changed:
  no key and no value is checked or dropped. The file of the witness has a negative and a
  zero quantity; after loading it \<open>get_qty\<close> gives a negative number and the entry with
  quantity 0 is in the stock.
\<close>

theorem load_keeps_decoded:
  assumes "files s file = Holds text" and "json_loads text = Decoded d"
  shows "load_data s file = Returns (s\<lparr>stock_data := d\<rparr>)"
  using assms by (simp add: load_data_def)

theorem load_keeps_decoded_witness:
  "files negative_file ''inventory.json'' = Holds zero_file
   \<and> json_loads zero_file = Decoded [(''x'', - 3), (''y'', 0)]
   \<and> load_data negative_file ''inventory.json'' = Returns (negative_file\<lparr>stock_data := [(''x'', - 3), (''y'', 0)]\<rparr>)
   \<and> get_qty (negative_file\<lparr>stock_data := [(''x'', - 3), (''y'', 0)]\<rparr>) ''x'' = - 3
   \<and> dict_get (stock_data (negative_file\<lparr>stock_data := [(''x'', - 3), (''y'', 0)]\<rparr>)) ''y'' = Some 0"
  using load_keeps_decoded [of negative_file "''inventory.json''" zero_file "[(''x'', - 3), (''y'', 0)]"]
    zero_file_decoded
  by (simp add: negative_file_def get_qty_def)

section \<open>The invariant\<close>

text \<open>
  C2, as amended. When every quantity in the stock is strictly positive, it is so after
  \<open>remove_item\<close>, and after \<open>add_item\<close> unless the quantity added is 0; \<open>save_data\<close> and
  \<open>print_data\<close> leave the stock as it is (\<open>get_qty\<close> and \<open>check_low_items\<close> return values and
  change nothing); after a \<open>load_data\<close> that finds no file or a text that is not valid JSON
  the stock is empty.
\<close>

theorem invariant_preserved:
  assumes "positive_stock (stock_data s)"
  shows "positive_stock (stock_data (remove_item s item qty))
       \<and> (as_int qty \<noteq> Some 0 \<longrightarrow> positive_stock (stock_data (fst (add_item s item qty logs now))))
       \<and> stock_data (save_data s file) = stock_data s
       \<and> stock_data (print_data s) = stock_data s
       \<and> (files s file = Missing \<or> (\<exists>text. files s file = Holds text \<and> json_loads text = JSONDecodeError)
            \<longrightarrow> (\<exists>s'. load_data s file = Returns s' \<and> stock_data s' = []))"
proof -
  have "stock_data (save_data s file) = stock_data s"
    by (cases "writes s file") (simp_all add: save_data_def eprint_def)
  moreover have "\<exists>s'. load_data s file = Returns s' \<and> stock_data s' = []"
    if "files s file = Missing \<or> (\<exists>text. files s file = Holds text \<and> json_loads text = JSONDecodeError)"
    using that by (auto simp: load_data_def)
  ultimately show ?thesis
    using positive_remove [OF assms] positive_add [OF assms] print_data_stock by blast
qed

theorem invariant_preserved_witness:
  "positive_stock (stock_data stocked)
   \<and> as_int (PInt 3) \<noteq> Some 0
   \<and> files stocked ''missing.json'' = Missing
   \<and> positive_stock (stock_data (remove_item stocked (PStr ''apple'') (PInt 3)))
   \<and> positive_stock (stock_data (fst (add_item stocked (PStr ''apple'') (PInt 3) None ''t'')))
   \<and> stock_data (save_data stocked ''missing.json'') = stock_data stocked
   \<and> stock_data (print_data stocked) = stock_data stocked
   \<and> (\<exists>s'. load_data stocked ''missing.json'' = Returns s' \<and> stock_data s' = [])"
  using invariant_preserved [of stocked "PStr ''apple''" "PInt 3" None "''t''" "''missing.json''"]
  by (simp add: stocked_def start_def)

text \<open>
  The invariant is not preserved by every operation: \<open>add_item\<close> with the quantity 0 gives
  a new item an entry with 0, and \<open>load_data\<close> takes a zero or negative quantity from the
  file as it is.
\<close>

theorem invariant_counterexample:
  "positive_stock (stock_data start)
   \<and> stock_data (fst (add_item start (PStr ''x'') (PInt 0) None ''t'')) = [(''x'', 0)]
   \<and> \<not> positive_stock (stock_data (fst (add_item start (PStr ''x'') (PInt 0) None ''t'')))
   \<and> load_data negative_file ''inventory.json'' = Returns (negative_file\<lparr>stock_data := [(''x'', - 3), (''y'', 0)]\<rparr>)
   \<and> \<not> positive_stock (stock_data (negative_file\<lparr>stock_data := [(''x'', - 3), (''y'', 0)]\<rparr>))"
  using zero_file_decoded
  by (simp add: add_item_def start_def load_data_def negative_file_def)

end
